theory Spec2Isabelle
  imports Complex_Main "HOL-Library.Sublist" "HOL-Library.Multiset"
begin

section \<open>JavaScript strings\<close>

text \<open>
  A JavaScript string is modelled as a \<^typ>\<open>string\<close>: a list of characters, each a code
  unit of the range U+0000 to U+00FF, which holds every literal of the sources. On this
  range \<open>toLowerCase\<close> maps \<open>A\<close>..\<open>Z\<close> (U+0041 to U+005A) and the accented capitals
  U+00C0 to U+00DE, the multiplication sign U+00D7 apart, to the character 32 places up,
  and leaves every other character alone. \<open>trim\<close> strips white space and line
  terminators from both ends: in this range tab, line feed, vertical tab, form feed,
  carriage return, space and the no-break space U+00A0. \<open>includes\<close> is the test for a
  contiguous substring.
\<close>

definition toLowerCaseChar :: "char \<Rightarrow> char" where
  "toLowerCaseChar c =
     (let n = (of_char c :: nat)
      in if (65 \<le> n \<and> n \<le> 90) \<or> (192 \<le> n \<and> n \<le> 222 \<and> n \<noteq> 215)
         then char_of (n + 32) else c)"

definition toLowerCase :: "string \<Rightarrow> string" where
  "toLowerCase s = map toLowerCaseChar s"

definition isWhiteSpace :: "char \<Rightarrow> bool" where
  "isWhiteSpace c \<longleftrightarrow>
     c \<in> set [CHR 0x09, CHR 0x0A, CHR 0x0B, CHR 0x0C, CHR 0x0D, CHR 0x20, CHR 0xA0]"

definition js_trim :: "string \<Rightarrow> string" where
  "js_trim s = rev (dropWhile isWhiteSpace (rev (dropWhile isWhiteSpace s)))"

fun js_includes :: "string \<Rightarrow> string \<Rightarrow> bool" where
  "js_includes [] t = (t = [])"
| "js_includes (c # s) t = (prefix t (c # s) \<or> js_includes s t)"


section \<open>Data model\<close>

text \<open>
  The item and category types come from \<open>@/data/menuData\<close>. The fields below are the ones
  the search bar and the item card read; image, calories, allergens and sourcing are only
  displayed. Numbers are finite JavaScript numbers, modelled as reals. An absent flag is
  falsy, so a flag is a \<^typ>\<open>bool\<close>; an absent protein value or option list is \<open>None\<close>.
\<close>

record item_option =
  required :: bool

record menu_item =
  item_id :: string
  name :: string
  description :: string
  price :: real
  popular :: bool
  spicy :: bool
  vegetarian :: bool
  glutenFree :: bool
  protein :: "real option"
  options :: "item_option list option"

record menu_category =
  cat_id :: string
  items :: "menu_item list"

record search_result =
  title :: string
  result_items :: "menu_item list"


section \<open>The search bar (SearchBar, second part of Menu.tsx)\<close>

text \<open>\<open>menuCategories.flatMap(category => category.items)\<close>\<close>

definition allItems :: "menu_category list \<Rightarrow> menu_item list" where
  "allItems menuCategories = concat (map items menuCategories)"

subsection \<open>Array.prototype.sort with a comparison function\<close>

text \<open>
  \<open>sort(compareFn)\<close> is stable: \<open>a\<close> is placed before \<open>b\<close> when \<open>compareFn(a, b) < 0\<close>,
  after it when \<open>compareFn(a, b) > 0\<close>, and the two keep their order when it is \<open>0\<close>.
  For a consistent comparison function the outcome does not depend on the algorithm; the
  model is the stable insertion sort.
\<close>

fun insert_by :: "('a \<Rightarrow> 'a \<Rightarrow> real) \<Rightarrow> 'a \<Rightarrow> 'a list \<Rightarrow> 'a list" where
  "insert_by compareFn a [] = [a]"
| "insert_by compareFn a (b # bs) =
     (if compareFn a b \<le> 0 then a # b # bs else b # insert_by compareFn a bs)"

definition array_sort :: "('a \<Rightarrow> 'a \<Rightarrow> real) \<Rightarrow> 'a list \<Rightarrow> 'a list" where
  "array_sort compareFn xs = foldr (insert_by compareFn) xs []"

subsection \<open>The handlers\<close>

text \<open>\<open>item.protein || 0\<close>\<close>

definition proteinOr0 :: "menu_item \<Rightarrow> real" where
  "proteinOr0 a = (case protein a of None \<Rightarrow> 0 | Some p \<Rightarrow> p)"

definition handleProteinQuery :: "menu_category list \<Rightarrow> search_result" where
  "handleProteinQuery menuCategories =
     (let allItems = allItems menuCategories;
          sortedByProtein =
            take 5 (array_sort (\<lambda>a b. proteinOr0 b - proteinOr0 a)
                      (filter (\<lambda>item. protein item \<noteq> None) allItems))
      in \<lparr>title = ''Highest Protein Dishes'', result_items = sortedByProtein\<rparr>)"

definition handleSpicyQuery :: "menu_category list \<Rightarrow> search_result" where
  "handleSpicyQuery menuCategories =
     \<lparr>title = ''Spicy Dishes'', result_items = filter spicy (allItems menuCategories)\<rparr>"

definition handleVegetarianQuery :: "menu_category list \<Rightarrow> search_result" where
  "handleVegetarianQuery menuCategories =
     \<lparr>title = ''Vegetarian Options'', result_items = filter vegetarian (allItems menuCategories)\<rparr>"

definition handleGlutenFreeQuery :: "menu_category list \<Rightarrow> search_result" where
  "handleGlutenFreeQuery menuCategories =
     \<lparr>title = ''Gluten-Free Options'', result_items = filter glutenFree (allItems menuCategories)\<rparr>"

definition handlePopularQuery :: "menu_category list \<Rightarrow> search_result" where
  "handlePopularQuery menuCategories =
     \<lparr>title = ''Most Popular Dishes'', result_items = filter popular (allItems menuCategories)\<rparr>"

text \<open>
  The identifier of the first category holding an item with the given item's identifier:
  \<open>menuCategories.find(cat => cat.items.some(i => i.id === item.id))?.id\<close>.
\<close>

definition categoryIdOf :: "menu_category list \<Rightarrow> menu_item \<Rightarrow> string option" where
  "categoryIdOf menuCategories item =
     map_option cat_id
       (find (\<lambda>cat. list_ex (\<lambda>i. item_id i = item_id item) (items cat)) menuCategories)"

definition handleQuickOptions :: "menu_category list \<Rightarrow> search_result" where
  "handleQuickOptions menuCategories =
     \<lparr>title = ''Quick Lunch Options'',
      result_items =
        filter (\<lambda>item.
            let categoryId = categoryIdOf menuCategories item
            in categoryId = Some ''starters'' \<or> categoryId = Some ''soups'' \<or>
               js_includes (toLowerCase (name item)) ''fried rice'')
          (allItems menuCategories)\<rparr>"

text \<open>
  The table of \<open>handleSpanishQuery\<close>. The function joins it into a local string
  \<open>spanishResponse\<close>, which nothing reads, and returns an object that holds a title and
  an empty item list only.
\<close>

definition categoryTranslations :: "(string \<times> string) list" where
  "categoryTranslations =
     [(''Starters'', ''Entrantes''), (''Soups'', ''Sopas''), (''Curries'', ''Curry''),
      (''Noodles'', ''Fideos''), (''Rice Dishes'', ''Platos de Arroz''),
      (''Signature Specials'', ''Especialidades''), (''Desserts'', ''Postres''),
      (''Drinks'', ''Bebidas'')]"

definition handleSpanishQuery :: "search_result" where
  "handleSpanishQuery =
     (let spanishResponse = map (\<lambda>(eng, spa). eng @ '' -> '' @ spa) categoryTranslations
      in \<lparr>title = ''Spanish Menu'', result_items = []\<rparr>)"

definition textSearch :: "menu_category list \<Rightarrow> string \<Rightarrow> search_result" where
  "textSearch menuCategories searchText =
     (let allItems = allItems menuCategories;
          matchedItems =
            filter (\<lambda>item. js_includes (toLowerCase (name item)) searchText \<or>
                           js_includes (toLowerCase (description item)) searchText)
              allItems
      in \<lparr>title = ''Search Results for '' @ [CHR 0x22] @ searchText @ [CHR 0x22],
          result_items = matchedItems\<rparr>)"

subsection \<open>handleSearch\<close>

text \<open>
  What a call of \<open>handleSearch\<close> does to its surroundings, in order: the analytics event
  \<open>search\<close> with the query, the call of the parent's \<open>onSearchResults\<close>, and the two
  updates of the component's own state.
\<close>

datatype searchbar_effect =
    TrackSearch string
  | OnSearchResults search_result
  | SetQuery string
  | SetIsExpanded bool

text \<open>
  \<open>results\<close> is \<open>None\<close> on the branch that leaves the function by its own \<open>return\<close>
  (after calling \<open>handleSpanishQuery\<close> and dropping what it returns).
\<close>

definition handleSearch :: "menu_category list \<Rightarrow> string \<Rightarrow> searchbar_effect list" where
  "handleSearch menuCategories searchText =
     (if js_trim searchText = [] then []
      else
        let searchLower = toLowerCase searchText;
            results =
              (if js_includes searchLower ''popular'' \<or> js_includes searchLower ''best seller''
               then Some (handlePopularQuery menuCategories)
               else if js_includes searchLower ''spicy'' \<or> js_includes searchLower ''spiciest''
               then Some (handleSpicyQuery menuCategories)
               else if js_includes searchLower ''vegetarian'' \<or> js_includes searchLower ''vegan''
               then Some (handleVegetarianQuery menuCategories)
               else if js_includes searchLower ''gluten''
               then Some (handleGlutenFreeQuery menuCategories)
               else if js_includes searchLower ''protein'' \<or>
                       js_includes searchLower ''highest protein''
               then Some (handleProteinQuery menuCategories)
               else if js_includes searchLower ''quick'' \<or> js_includes searchLower ''fast'' \<or>
                       js_includes searchLower ''lunch''
               then Some (handleQuickOptions menuCategories)
               else if js_includes searchLower ''spanish'' \<or> searchLower = ''spanish''
               then (let dropped = handleSpanishQuery in None)
               else Some (textSearch menuCategories searchLower))
        in TrackSearch searchText #
           (case results of
              None \<Rightarrow> []
            | Some r \<Rightarrow> [OnSearchResults r, SetQuery [], SetIsExpanded False]))"

text \<open>
  The branch of the chain that a lower-cased query takes, as a tag: the same conditions in
  the same order.
\<close>

datatype intent =
    POPULAR | SPICY | VEGETARIAN | GLUTEN_FREE | HIGHEST_PROTEIN | QUICK_LUNCH
  | LANGUAGE_SWITCH | GENERIC_TEXT_SEARCH

definition classify :: "string \<Rightarrow> intent" where
  "classify searchLower =
     (if js_includes searchLower ''popular'' \<or> js_includes searchLower ''best seller''
      then POPULAR
      else if js_includes searchLower ''spicy'' \<or> js_includes searchLower ''spiciest''
      then SPICY
      else if js_includes searchLower ''vegetarian'' \<or> js_includes searchLower ''vegan''
      then VEGETARIAN
      else if js_includes searchLower ''gluten''
      then GLUTEN_FREE
      else if js_includes searchLower ''protein'' \<or> js_includes searchLower ''highest protein''
      then HIGHEST_PROTEIN
      else if js_includes searchLower ''quick'' \<or> js_includes searchLower ''fast'' \<or>
              js_includes searchLower ''lunch''
      then QUICK_LUNCH
      else if js_includes searchLower ''spanish'' \<or> searchLower = ''spanish''
      then LANGUAGE_SWITCH
      else GENERIC_TEXT_SEARCH)"

text \<open>What each branch hands to \<open>onSearchResults\<close>, if anything.\<close>

fun branch_result :: "menu_category list \<Rightarrow> string \<Rightarrow> intent \<Rightarrow> search_result option" where
  "branch_result menuCategories searchLower POPULAR = Some (handlePopularQuery menuCategories)"
| "branch_result menuCategories searchLower SPICY = Some (handleSpicyQuery menuCategories)"
| "branch_result menuCategories searchLower VEGETARIAN = Some (handleVegetarianQuery menuCategories)"
| "branch_result menuCategories searchLower GLUTEN_FREE = Some (handleGlutenFreeQuery menuCategories)"
| "branch_result menuCategories searchLower HIGHEST_PROTEIN = Some (handleProteinQuery menuCategories)"
| "branch_result menuCategories searchLower QUICK_LUNCH = Some (handleQuickOptions menuCategories)"
| "branch_result menuCategories searchLower LANGUAGE_SWITCH = None"
| "branch_result menuCategories searchLower GENERIC_TEXT_SEARCH =
     Some (textSearch menuCategories searchLower)"

text \<open>
  The classifier as the specification words it: an ordered list of rules, each a set of
  trigger substrings with its intent; the first rule with a trigger inside the query
  decides, and a query that no rule matches is a generic text search.
\<close>

definition spec_rules :: "(string list \<times> intent) list" where
  "spec_rules =
     [([''popular'', ''best seller''], POPULAR),
      ([''spicy'', ''spiciest''], SPICY),
      ([''vegetarian'', ''vegan''], VEGETARIAN),
      ([''gluten''], GLUTEN_FREE),
      ([''protein'', ''highest protein''], HIGHEST_PROTEIN),
      ([''quick'', ''fast'', ''lunch''], QUICK_LUNCH),
      ([''spanish''], LANGUAGE_SWITCH)]"

fun spec_classify :: "(string list \<times> intent) list \<Rightarrow> string \<Rightarrow> intent" where
  "spec_classify [] s = GENERIC_TEXT_SEARCH"
| "spec_classify ((triggers, i) # rules) s =
     (if list_ex (js_includes s) triggers then i else spec_classify rules s)"


text \<open>
  A trigger of one of the six rules that come before the language switch in the chain.
\<close>

definition higher_priority_trigger :: "string \<Rightarrow> bool" where
  "higher_priority_trigger s \<longleftrightarrow>
     list_ex (js_includes s)
       [''popular'', ''best seller'', ''spicy'', ''spiciest'', ''vegetarian'', ''vegan'',
        ''gluten'', ''protein'', ''highest protein'', ''quick'', ''fast'', ''lunch'']"


section \<open>The item card (MenuItem.tsx)\<close>

text \<open>
  The card holds a local quantity, \<open>useState(1)\<close>. A handler reads the constant
  \<open>quantity\<close> of the render that made it, and changes the state through
  \<open>setQuantity\<close>. What a handler does to its surroundings is listed in order: the two
  calls on the click event, an assignment to \<open>window.location.href\<close>, a call of the
  cart's \<open>addToCart\<close> with the identifier, name, price and quantity of the line.
  \<open>handleAddToCart\<close> maps the quantity of its render to the quantity it leaves: the same
  one when it sets nothing, 1 after \<open>setQuantity(1)\<close>.
\<close>

datatype card_effect =
    PreventDefault
  | StopPropagation
  | SetLocationHref string
  | AddToCart string string real int

definition initialQuantity :: int where
  "initialQuantity = 1"

text \<open>\<open>item.options?.some(option => option.required)\<close>: absent options are falsy.\<close>

definition handleAddToCart :: "menu_item \<Rightarrow> int \<Rightarrow> int \<times> card_effect list" where
  "handleAddToCart item quantity =
     (if (case options item of None \<Rightarrow> False | Some opts \<Rightarrow> list_ex required opts)
      then (quantity, [PreventDefault, StopPropagation, SetLocationHref (''/item/'' @ item_id item)])
      else (1, [PreventDefault, StopPropagation,
                AddToCart (item_id item) (name item) (price item) quantity]))"

text \<open>
  The two quantity buttons pass an updater to \<open>setQuantity\<close>. An updater receives the
  state as it stands when it runs (\<open>prev\<close>), which is not the \<open>quantity\<close> of the
  render when an earlier update has not been rendered yet. \<open>incrementQuantity\<close> reads
  \<open>prev\<close> only; \<open>decrementQuantity\<close> tests the render's \<open>quantity\<close> and then changes
  \<open>prev\<close>.
\<close>

definition incrementQuantity :: "int \<Rightarrow> int \<times> card_effect list" where
  "incrementQuantity prev = (prev + 1, [PreventDefault, StopPropagation])"

definition decrementQuantity :: "int \<Rightarrow> int \<Rightarrow> int \<times> card_effect list" where
  "decrementQuantity quantity prev =
     (if quantity > 1 then (prev - 1, [PreventDefault, StopPropagation])
      else (prev, [PreventDefault, StopPropagation]))"

text \<open>
  The card between events: the \<open>quantity\<close> of the last render, which the card shows
  and its handlers read, and the state with every update made since. A click on a
  quantity button runs the handler of the last render; a render reads the state.
\<close>

record card_state =
  shown_quantity :: int
  state_quantity :: int

datatype card_event = ClickPlus | ClickMinus | Render

definition initialCard :: card_state where
  "initialCard = \<lparr>shown_quantity = initialQuantity, state_quantity = initialQuantity\<rparr>"

fun card_step :: "card_state \<Rightarrow> card_event \<Rightarrow> card_state" where
  "card_step st ClickPlus =
     st\<lparr>state_quantity := fst (incrementQuantity (state_quantity st))\<rparr>"
| "card_step st ClickMinus =
     st\<lparr>state_quantity := fst (decrementQuantity (shown_quantity st) (state_quantity st))\<rparr>"
| "card_step st Render = st\<lparr>shown_quantity := state_quantity st\<rparr>"

definition card_run :: "card_event list \<Rightarrow> card_state" where
  "card_run events = foldl card_step initialCard events"

text \<open>The cart calls and the navigations among the effects of a handler.\<close>

fun cart_calls :: "card_effect list \<Rightarrow> (string \<times> string \<times> real \<times> int) list" where
  "cart_calls [] = []"
| "cart_calls (AddToCart i n p q # es) = (i, n, p, q) # cart_calls es"
| "cart_calls (e # es) = cart_calls es"

fun navigations :: "card_effect list \<Rightarrow> string list" where
  "navigations [] = []"
| "navigations (SetLocationHref url # es) = url # navigations es"
| "navigations (e # es) = navigations es"


section \<open>The menu page (Menu, first part of Menu.tsx)\<close>

subsection \<open>The regular expression of handleSearchResults\<close>

text \<open>
  \<open>title.match(/Search Results for "(.+?)"|(.+)/)\<close> returns the leftmost match, trying
  the first alternative before the second at each start position, or \<open>null\<close>. A dot
  matches any character but a line terminator (in the range of the model: line feed and
  carriage return). The match is modelled by its two groups; a group that took no part in the
  match is \<open>None\<close> (\<open>undefined\<close>).
\<close>

definition isLineTerminator :: "char \<Rightarrow> bool" where
  "isLineTerminator c \<longleftrightarrow> c = CHR 0x0A \<or> c = CHR 0x0D"

definition quotedPrefix :: string where
  "quotedPrefix = ''Search Results for '' @ [CHR 0x22]"

text \<open>
  \<open>(.+?)"\<close> after the group has taken \<open>taken\<close>: the lazy group stops at the first
  quote that follows, and takes one more character otherwise.
\<close>

fun lazyGroup :: "string \<Rightarrow> string \<Rightarrow> string option" where
  "lazyGroup taken [] = None"
| "lazyGroup taken (c # cs) =
     (if c = CHR 0x22 then Some taken
      else if isLineTerminator c then None
      else lazyGroup (taken @ [c]) cs)"

text \<open>The first alternative, \<open>Search Results for "(.+?)"\<close>, at the start of \<open>t\<close>.\<close>

definition matchQuoted :: "string \<Rightarrow> string option" where
  "matchQuoted t =
     (if prefix quotedPrefix t
      then (case drop (length quotedPrefix) t of
              [] \<Rightarrow> None
            | c # cs \<Rightarrow> if isLineTerminator c then None else lazyGroup [c] cs)
      else None)"

text \<open>The second alternative, the greedy \<open>(.+)\<close>, at the start of \<open>t\<close>.\<close>

definition matchRest :: "string \<Rightarrow> string option" where
  "matchRest t =
     (case takeWhile (\<lambda>c. \<not> isLineTerminator c) t of [] \<Rightarrow> None | c # cs \<Rightarrow> Some (c # cs))"

fun titleMatch :: "string \<Rightarrow> (string option \<times> string option) option" where
  "titleMatch [] = None"
| "titleMatch (c # cs) =
     (case matchQuoted (c # cs) of
        Some g1 \<Rightarrow> Some (Some g1, None)
      | None \<Rightarrow>
          (case matchRest (c # cs) of
             Some g2 \<Rightarrow> Some (None, Some g2)
           | None \<Rightarrow> titleMatch cs))"

text \<open>\<open>a || b\<close> for a string or \<open>undefined\<close> on the left: both are falsy when empty.\<close>

definition js_or :: "string option \<Rightarrow> string \<Rightarrow> string" where
  "js_or a b = (case a of None \<Rightarrow> b | Some s \<Rightarrow> if s = [] then b else s)"

subsection \<open>State, handler and view\<close>

text \<open>
  The page's state that search touches. The hooks are outside the page:
  \<open>useMenuSearch(currentQuery)\<close> is a parameter, a function from the query to the items
  it returns (of any type), and the two flags of \<open>useMenuCategories\<close> are arguments of
  the view. The category branch of the view is kept as the active category's slug.
\<close>

record menu_state =
  activeCategory :: string
  isLoaded :: bool
  searchResults :: "search_result option"
  currentQuery :: string

datatype menu_effect = TrackSearchResults string nat

definition handleSearchResults :: "search_result \<Rightarrow> menu_state \<Rightarrow> menu_state \<times> menu_effect list" where
  "handleSearchResults results st =
     (let queryMatch = titleMatch (title results);
          st1 = (case queryMatch of
                   None \<Rightarrow> st
                 | Some (g1, g2) \<Rightarrow> st\<lparr>currentQuery := js_or g1 (js_or g2 [])\<rparr>);
          st2 = st1\<lparr>searchResults := Some results\<rparr>
      in (st2, [TrackSearchResults (title results) (length (result_items results))]))"

datatype 'i page_view =
    Spinner
  | LoadFailed
  | SearchView string "'i list"
  | CategoryView string

definition render :: "(string \<Rightarrow> 'i list) \<Rightarrow> bool \<Rightarrow> bool \<Rightarrow> menu_state \<Rightarrow> 'i page_view" where
  "render useMenuSearch categoriesLoading categoriesError st =
     (let searchItems = useMenuSearch (currentQuery st)
      in if categoriesLoading \<and> \<not> isLoaded st then Spinner
         else if categoriesError then LoadFailed
         else (case searchResults st of
                 Some r \<Rightarrow> SearchView (js_or (Some (title r)) ''Search Results'') searchItems
               | None \<Rightarrow> CategoryView (activeCategory st)))"


section \<open>Auxiliary definitions\<close>

text \<open>
  The two intermediate lists of \<open>handleProteinQuery\<close>: the items with a protein value, and
  that list sorted, before the first five are taken.
\<close>

definition withProtein :: "menu_category list \<Rightarrow> menu_item list" where
  "withProtein cats = filter (\<lambda>item. protein item \<noteq> None) (allItems cats)"

definition allSortedByProtein :: "menu_category list \<Rightarrow> menu_item list" where
  "allSortedByProtein cats = array_sort (\<lambda>a b. proteinOr0 b - proteinOr0 a) (withProtein cats)"


text \<open>
  The query that \<open>handleSearchResults\<close> reads off a title: \<open>queryMatch[1] ||
  queryMatch[2] || ""\<close>, or \<open>None\<close> when the title has no match and the current query
  is left as it was.
\<close>

definition extractedQuery :: "string \<Rightarrow> string option" where
  "extractedQuery t =
     (case titleMatch t of None \<Rightarrow> None | Some (g1, g2) \<Rightarrow> Some (js_or g1 (js_or g2 [])))"


section \<open>An example catalog\<close>

text \<open>
  The catalog itself (\<open>@/data/menuData\<close>) is data. The small catalog below is used to
  run the functions on concrete input.
\<close>

definition example_item :: "string \<Rightarrow> string \<Rightarrow> string \<Rightarrow> real option \<Rightarrow> menu_item" where
  "example_item i n d p =
     \<lparr>item_id = i, name = n, description = d, price = 12, popular = False, spicy = False,
      vegetarian = False, glutenFree = False, protein = p, options = None\<rparr>"

definition example_catalog :: "menu_category list" where
  "example_catalog =
     [\<lparr>cat_id = ''starters'',
       items = [example_item ''spring-rolls'' ''Thai Spring Rolls'' ''Crispy rolls'' (Some 8),
                example_item ''dumplings'' ''Steamed Dumplings'' ''With soy dip'' (Some 12)]\<rparr>,
      \<lparr>cat_id = ''soups'',
       items = [example_item ''tom-yum'' ''Tom Yum'' ''Hot and sour soup'' (Some 15)]\<rparr>,
      \<lparr>cat_id = ''noodles'',
       items = [example_item ''pad-thai'' ''Pad Thai'' ''Rice noodles with peanuts'' (Some 25),
                example_item ''pad-kee-mao'' ''Drunken Noodles'' ''Wide noodles, basil'' (Some 25)]\<rparr>,
      \<lparr>cat_id = ''rice'',
       items = [example_item ''fried-rice'' ''Thai Fried Rice'' ''Jasmine rice, egg'' (Some 20),
                example_item ''sticky-rice'' ''Mango Sticky Rice'' ''Sweet coconut rice'' None]\<rparr>,
      \<lparr>cat_id = ''curries'',
       items = [example_item ''green-curry'' ''Green Curry'' ''Coconut milk, basil'' (Some 30),
                example_item ''red-curry'' ''Red Curry'' ''Bamboo shoots'' (Some 25)]\<rparr>]"


section \<open>Strings: basic facts\<close>

lemma js_includes_sublist: "js_includes s t \<longleftrightarrow> sublist t s"
  by (induction s) (simp_all add: sublist_Cons_right)

lemma js_trim_empty_iff: "js_trim s = [] \<longleftrightarrow> (\<forall>c \<in> set s. isWhiteSpace c)"
proof (cases "dropWhile isWhiteSpace s")
  case Nil
  then have "\<forall>c \<in> set s. isWhiteSpace c"
    by simp
  then show ?thesis
    unfolding js_trim_def Nil by simp
next
  case (Cons x xs)
  then have "\<not> isWhiteSpace x"
    by (metis hd_dropWhile list.distinct(1) list.sel(1))
  with Cons have "dropWhile isWhiteSpace (rev (dropWhile isWhiteSpace s)) \<noteq> []"
    by auto
  moreover from Cons have "\<not> (\<forall>c \<in> set s. isWhiteSpace c)"
    by (metis dropWhile_eq_Nil_conv list.distinct(1))
  ultimately show ?thesis by (auto simp: js_trim_def)
qed


section \<open>The intent classifier\<close>

lemma handleSearch_classify:
  "js_trim q \<noteq> [] \<Longrightarrow>
   handleSearch cats q =
     TrackSearch q #
       (case branch_result cats (toLowerCase q) (classify (toLowerCase q)) of
          None \<Rightarrow> []
        | Some r \<Rightarrow> [OnSearchResults r, SetQuery [], SetIsExpanded False])"
  by (simp add: handleSearch_def classify_def Let_def)


text \<open>
  C1. The chain of \<open>handleSearch\<close> is the first-match classifier over the rule list
  popular/best seller, spicy/spiciest, vegetarian/vegan, gluten, protein/highest protein,
  quick/fast/lunch, spanish, with generic text search when no rule matches: the branch
  taken for a lower-cased query \<open>s\<close> is the intent of the first rule that has a trigger
  inside \<open>s\<close>. A query containing "spicy" is SPICY exactly when it contains neither
  "popular" nor "best seller". A query \<open>q\<close> that passes the blank guard is dispatched
  on the one branch chosen for its lower-cased form.
\<close>

theorem C1_first_matching_rule_wins:
  "classify s = spec_classify spec_rules s \<and>
   (js_includes s ''spicy'' \<longrightarrow>
      (classify s = SPICY \<longleftrightarrow>
         \<not> js_includes s ''popular'' \<and> \<not> js_includes s ''best seller'')) \<and>
   (js_trim q \<noteq> [] \<longrightarrow>
      handleSearch cats q =
        TrackSearch q #
          (case branch_result cats (toLowerCase q) (classify (toLowerCase q)) of
             None \<Rightarrow> []
           | Some r \<Rightarrow> [OnSearchResults r, SetQuery [], SetIsExpanded False]))"
proof (intro conjI impI)
  show "classify s = spec_classify spec_rules s"
    by (auto simp: classify_def spec_rules_def)
  show "classify s = SPICY \<longleftrightarrow>
          \<not> js_includes s ''popular'' \<and> \<not> js_includes s ''best seller''"
    if "js_includes s ''spicy''"
    using that by (simp add: classify_def)
  show "handleSearch cats q =
          TrackSearch q #
            (case branch_result cats (toLowerCase q) (classify (toLowerCase q)) of
               None \<Rightarrow> []
             | Some r \<Rightarrow> [OnSearchResults r, SetQuery [], SetIsExpanded False])"
    if "js_trim q \<noteq> []"
    using that by (rule handleSearch_classify)
qed

theorem C1_first_matching_rule_wins_witness:
  "js_includes ''popular and spicy'' ''spicy'' \<and>
   classify ''popular and spicy'' = POPULAR \<and>
   spec_classify spec_rules ''popular and spicy'' = POPULAR \<and>
   js_trim ''Popular and Spicy'' \<noteq> [] \<and>
   handleSearch [] ''Popular and Spicy'' =
     [TrackSearch ''Popular and Spicy'', OnSearchResults (handlePopularQuery []),
      SetQuery [], SetIsExpanded False]"
proof -
  have lower: "toLowerCase ''Popular and Spicy'' = ''popular and spicy''"
    by code_simp
  have spicy: "js_includes ''popular and spicy'' ''spicy''"
    by code_simp
  have popular: "js_includes ''popular and spicy'' ''popular''"
    by code_simp
  have guard: "js_trim ''Popular and Spicy'' \<noteq> []"
    by code_simp
  have spec: "spec_classify spec_rules ''popular and spicy'' = POPULAR"
    by code_simp
  note inst = C1_first_matching_rule_wins
               [of "''popular and spicy''" "''Popular and Spicy''" "[]"]
  from inst spec have cls: "classify ''popular and spicy'' = POPULAR"
    by simp
  from inst guard have
    "handleSearch [] ''Popular and Spicy'' =
       TrackSearch ''Popular and Spicy'' #
         (case branch_result [] (toLowerCase ''Popular and Spicy'')
                 (classify (toLowerCase ''Popular and Spicy'')) of
            None \<Rightarrow> []
          | Some r \<Rightarrow> [OnSearchResults r, SetQuery [], SetIsExpanded False])"
    by blast
  then have "handleSearch [] ''Popular and Spicy'' =
     [TrackSearch ''Popular and Spicy'', OnSearchResults (handlePopularQuery []),
      SetQuery [], SetIsExpanded False]"
    by (simp only: lower cls branch_result.simps option.case)
  with spicy cls spec guard show ?thesis
    by blast
qed


text \<open>
  C7. A query that is empty or holds white space only (the no-break space included)
  leaves \<open>handleSearch\<close> at its guard: nothing is tracked, no branch of the chain is taken, \<open>onSearchResults\<close> is not
  called and the component's state is not touched. Every other query has at least the
  \<open>search\<close> event, so the empty effect list marks exactly the blank queries.
\<close>

theorem C7_blank_query_is_no_op:
  "handleSearch cats q = [] \<longleftrightarrow> (\<forall>c \<in> set q. isWhiteSpace c)"
proof (cases "js_trim q = []")
  case True
  then show ?thesis
    by (simp add: handleSearch_def js_trim_empty_iff [symmetric])
next
  case False
  then have "handleSearch cats q \<noteq> []"
    by (simp add: handleSearch_def Let_def)
  with False show ?thesis
    by (simp add: js_trim_empty_iff [symmetric])
qed

theorem C7_blank_query_is_no_op_witness:
  "list_all isWhiteSpace [CHR 0x20, CHR 0x09, CHR 0xA0] \<and>
   handleSearch [] [CHR 0x20, CHR 0x09, CHR 0xA0] = [] \<and>
   handleSearch [] [] = []"
proof -
  have blank: "\<forall>c \<in> set [CHR 0x20, CHR 0x09, CHR 0xA0]. isWhiteSpace c"
    by (simp add: isWhiteSpace_def)
  from blank C7_blank_query_is_no_op [of "[]" "[CHR 0x20, CHR 0x09, CHR 0xA0]"]
  have "handleSearch [] [CHR 0x20, CHR 0x09, CHR 0xA0] = []"
    by blast
  moreover from C7_blank_query_is_no_op [of "[]" "[]"]
  have "handleSearch [] [] = []"
    by simp
  ultimately show ?thesis
    using blank by (simp add: list_all_iff)
qed

text \<open>
  C2, as the code has it. The language switch is taken by every lower-cased query that
  holds "spanish" as a substring (the comparison with the whole string "spanish" adds
  nothing to the substring test) and no trigger of an earlier rule; generic text search is
  taken exactly by the queries that hold neither.
\<close>

theorem C2_language_switch_on_substring:
  "(classify s = LANGUAGE_SWITCH \<longleftrightarrow>
      js_includes s ''spanish'' \<and> \<not> higher_priority_trigger s) \<and>
   (classify s = GENERIC_TEXT_SEARCH \<longleftrightarrow>
      \<not> js_includes s ''spanish'' \<and> \<not> higher_priority_trigger s)"
  by (auto simp: classify_def higher_priority_trigger_def)

theorem C2_language_switch_on_substring_witness:
  "js_includes ''menu in spanish'' ''spanish'' \<and>
   \<not> higher_priority_trigger ''menu in spanish'' \<and>
   classify ''menu in spanish'' = LANGUAGE_SWITCH \<and>
   \<not> js_includes ''pad thai'' ''spanish'' \<and>
   \<not> higher_priority_trigger ''pad thai'' \<and>
   classify ''pad thai'' = GENERIC_TEXT_SEARCH"
proof -
  have a: "js_includes ''menu in spanish'' ''spanish''"
    by code_simp
  have b: "\<not> higher_priority_trigger ''menu in spanish''"
    by code_simp
  have c: "\<not> js_includes ''pad thai'' ''spanish''"
    by code_simp
  have d: "\<not> higher_priority_trigger ''pad thai''"
    by code_simp
  from a b c d
    C2_language_switch_on_substring [of "''menu in spanish''"]
    C2_language_switch_on_substring [of "''pad thai''"]
  show ?thesis
    by blast
qed

text \<open>
  The claim C2 as the specification states it fails: the query "Spanish menu" is not the
  string "spanish" after lower-casing and holds no trigger of an earlier rule, yet it
  takes the language-switch branch, not generic text search, and no result is emitted.
\<close>

theorem C2_exact_match_counterexample:
  "toLowerCase ''Spanish menu'' \<noteq> ''spanish'' \<and>
   \<not> higher_priority_trigger (toLowerCase ''Spanish menu'') \<and>
   classify (toLowerCase ''Spanish menu'') = LANGUAGE_SWITCH \<and>
   classify (toLowerCase ''Spanish menu'') \<noteq> GENERIC_TEXT_SEARCH \<and>
   handleSearch [] ''Spanish menu'' = [TrackSearch ''Spanish menu'']"
proof -
  have lower: "toLowerCase ''Spanish menu'' = ''spanish menu''"
    by code_simp
  have a: "\<not> higher_priority_trigger ''spanish menu''"
    by code_simp
  have b: "classify ''spanish menu'' = LANGUAGE_SWITCH"
    by code_simp
  have c: "js_trim ''Spanish menu'' \<noteq> []"
    by code_simp
  have "handleSearch [] ''Spanish menu'' = [TrackSearch ''Spanish menu'']"
    by (simp only: handleSearch_classify [OF c] lower b branch_result.simps option.case)
  with a b show ?thesis
    by (simp add: lower)
qed

text \<open>
  C3, evaluated on the code. A query that takes the language-switch branch never
  reaches \<open>onSearchResults\<close>: \<open>handleSearch\<close> calls \<open>handleSpanishQuery\<close>, drops what it
  returns and leaves, so the only effect is the \<open>search\<close> analytics event. The object
  that \<open>handleSpanishQuery\<close> returns holds the title "Spanish Menu" and an empty item
  list; the translation table is not part of it.
\<close>

theorem C3_language_switch_emits_nothing:
  "(js_trim q \<noteq> [] \<and> classify (toLowerCase q) = LANGUAGE_SWITCH \<longrightarrow>
      handleSearch cats q = [TrackSearch q]) \<and>
   handleSpanishQuery = \<lparr>title = ''Spanish Menu'', result_items = []\<rparr>"
  by (simp add: handleSearch_classify handleSpanishQuery_def)

theorem C3_language_switch_emits_nothing_witness:
  "js_trim ''spanish'' \<noteq> [] \<and>
   classify (toLowerCase ''spanish'') = LANGUAGE_SWITCH \<and>
   handleSearch [] ''spanish'' = [TrackSearch ''spanish'']"
proof -
  have a: "js_trim ''spanish'' \<noteq> []"
    by code_simp
  have b: "classify (toLowerCase ''spanish'') = LANGUAGE_SWITCH"
    by code_simp
  from a b C3_language_switch_emits_nothing [of "''spanish''" "[]"]
  show ?thesis
    by blast
qed

section \<open>Highest protein\<close>

lemma insert_by_insort_key:
  "insert_by (\<lambda>a b. k b - k a) x ys = insort_key (\<lambda>i. - k i) x ys"
  by (induction ys) auto

lemma array_sort_sort_key:
  "array_sort (\<lambda>a b. k b - k a) xs = sort_key (\<lambda>i. - k i) xs"
  by (induction xs) (simp_all add: array_sort_def insert_by_insort_key)

lemma handleProteinQuery_take:
  "handleProteinQuery cats =
     \<lparr>title = ''Highest Protein Dishes'', result_items = take 5 (allSortedByProtein cats)\<rparr>"
  by (simp add: handleProteinQuery_def allSortedByProtein_def withProtein_def)

lemma mset_allSortedByProtein: "mset (allSortedByProtein cats) = mset (withProtein cats)"
  by (simp add: allSortedByProtein_def array_sort_sort_key)

lemma set_allSortedByProtein: "set (allSortedByProtein cats) = set (withProtein cats)"
  by (metis mset_allSortedByProtein set_mset_mset)

lemma protein_defined: "item \<in> set (allSortedByProtein cats) \<Longrightarrow> protein item = Some (proteinOr0 item)"
  by (auto simp: set_allSortedByProtein withProtein_def proteinOr0_def)

lemma sorted_allSortedByProtein:
  "sorted_wrt (\<lambda>a b. proteinOr0 b \<le> proteinOr0 a) (allSortedByProtein cats)"
proof -
  have "sorted (map (\<lambda>i. - proteinOr0 i) (allSortedByProtein cats))"
    by (simp add: allSortedByProtein_def array_sort_sort_key)
  then show ?thesis
    by (simp add: sorted_map)
qed

lemma stable_allSortedByProtein:
  "filter (\<lambda>item. protein item = Some p) (allSortedByProtein cats) =
   filter (\<lambda>item. protein item = Some p) (allItems cats)"
proof -
  have eq: "filter (\<lambda>item. protein item = Some p) xs =
            filter (\<lambda>item. - proteinOr0 item = - p) xs"
    if "\<forall>item \<in> set xs. protein item \<noteq> None" for xs
    using that by (intro filter_cong) (auto simp: proteinOr0_def)
  have "filter (\<lambda>item. protein item = Some p) (allSortedByProtein cats) =
        filter (\<lambda>item. - proteinOr0 item = - p) (allSortedByProtein cats)"
    by (rule eq) (simp add: set_allSortedByProtein withProtein_def)
  also have "\<dots> = filter (\<lambda>item. - proteinOr0 item = - p) (withProtein cats)"
    unfolding allSortedByProtein_def array_sort_sort_key by (rule sort_key_stable)
  also have "\<dots> = filter (\<lambda>item. protein item = Some p) (withProtein cats)"
    by (rule eq [symmetric]) (simp add: withProtein_def)
  also have "\<dots> = filter (\<lambda>item. protein item = Some p) (allItems cats)"
    unfolding withProtein_def filter_filter by (rule filter_cong) auto
  finally show ?thesis .
qed

text \<open>
  C4. The items of the highest-protein result are the first five of a list that is a
  rearrangement of the catalog's items with a protein value, non-increasing in protein,
  in which items of equal protein stand in catalog order. Hence the result has at most
  five items, every one with a protein value, the values non-increasing along the
  result, and the result's items of any one protein value are the first such items of
  the catalog, in catalog order.
\<close>

theorem C4_highest_protein_top_five:
  "(\<exists>sorted_items.
      mset sorted_items = mset (filter (\<lambda>item. protein item \<noteq> None) (allItems cats)) \<and>
      sorted_wrt (\<lambda>a b. proteinOr0 b \<le> proteinOr0 a) sorted_items \<and>
      (\<forall>p. filter (\<lambda>item. protein item = Some p) sorted_items =
           filter (\<lambda>item. protein item = Some p) (allItems cats)) \<and>
      handleProteinQuery cats =
        \<lparr>title = ''Highest Protein Dishes'', result_items = take 5 sorted_items\<rparr>) \<and>
   length (result_items (handleProteinQuery cats)) \<le> 5 \<and>
   (\<exists>ps. map protein (result_items (handleProteinQuery cats)) = map Some ps \<and>
         sorted_wrt (\<lambda>p p'. p' \<le> p) ps) \<and>
   (\<forall>p. prefix (filter (\<lambda>item. protein item = Some p) (result_items (handleProteinQuery cats)))
          (filter (\<lambda>item. protein item = Some p) (allItems cats)))"
proof (intro conjI)
  show "\<exists>sorted_items.
      mset sorted_items = mset (filter (\<lambda>item. protein item \<noteq> None) (allItems cats)) \<and>
      sorted_wrt (\<lambda>a b. proteinOr0 b \<le> proteinOr0 a) sorted_items \<and>
      (\<forall>p. filter (\<lambda>item. protein item = Some p) sorted_items =
           filter (\<lambda>item. protein item = Some p) (allItems cats)) \<and>
      handleProteinQuery cats =
        \<lparr>title = ''Highest Protein Dishes'', result_items = take 5 sorted_items\<rparr>"
    using mset_allSortedByProtein [of cats] sorted_allSortedByProtein [of cats]
      stable_allSortedByProtein [of _ cats] handleProteinQuery_take [of cats]
    unfolding withProtein_def by blast
  show "length (result_items (handleProteinQuery cats)) \<le> 5"
    by (simp add: handleProteinQuery_take)
  show "\<exists>ps. map protein (result_items (handleProteinQuery cats)) = map Some ps \<and>
         sorted_wrt (\<lambda>p p'. p' \<le> p) ps"
  proof (intro exI conjI)
    let ?r = "take 5 (allSortedByProtein cats)"
    have "map protein ?r = map (\<lambda>i. Some (proteinOr0 i)) ?r"
      by (rule map_cong) (auto dest: in_set_takeD protein_defined)
    then show "map protein (result_items (handleProteinQuery cats)) =
               map Some (map proteinOr0 ?r)"
      by (simp add: handleProteinQuery_take comp_def)
    have "sorted_wrt (\<lambda>a b. proteinOr0 b \<le> proteinOr0 a) ?r"
      using sorted_allSortedByProtein by (rule sorted_wrt_take)
    then show "sorted_wrt (\<lambda>p p'. p' \<le> p) (map proteinOr0 ?r)"
      by (simp add: sorted_wrt_map)
  qed
  show "\<forall>p. prefix (filter (\<lambda>item. protein item = Some p) (result_items (handleProteinQuery cats)))
          (filter (\<lambda>item. protein item = Some p) (allItems cats))"
  proof
    fix p
    have "prefix (take 5 (allSortedByProtein cats)) (allSortedByProtein cats)"
      by (rule take_is_prefix)
    then have "prefix (filter (\<lambda>item. protein item = Some p) (take 5 (allSortedByProtein cats)))
                 (filter (\<lambda>item. protein item = Some p) (allSortedByProtein cats))"
      by (rule filter_mono_prefix)
    then show "prefix (filter (\<lambda>item. protein item = Some p) (result_items (handleProteinQuery cats)))
          (filter (\<lambda>item. protein item = Some p) (allItems cats))"
      by (simp add: handleProteinQuery_take stable_allSortedByProtein)
  qed
qed

theorem C4_highest_protein_top_five_witness:
  "length (result_items (handleProteinQuery example_catalog)) \<le> 5 \<and>
   map item_id (result_items (handleProteinQuery example_catalog)) =
     [''green-curry'', ''pad-thai'', ''pad-kee-mao'', ''red-curry'', ''fried-rice''] \<and>
   map protein (result_items (handleProteinQuery example_catalog)) =
     map Some [30, 25, 25, 25, 20]"
proof -
  have ids: "map item_id (result_items (handleProteinQuery example_catalog)) =
     [''green-curry'', ''pad-thai'', ''pad-kee-mao'', ''red-curry'', ''fried-rice'']"
    by code_simp
  have prots: "map protein (result_items (handleProteinQuery example_catalog)) =
     map Some [30, 25, 25, 25, 20]"
    by code_simp
  from C4_highest_protein_top_five [of example_catalog]
  have "length (result_items (handleProteinQuery example_catalog)) \<le> 5"
    by blast
  with ids prots show ?thesis
    by blast
qed

section \<open>Quick lunch\<close>

lemma distinct_append_disjoint:
  "distinct (xs @ ys @ zs) \<Longrightarrow> x \<in> set xs \<Longrightarrow> x \<in> set ys \<Longrightarrow> False"
  by auto

lemma find_skip_prefix:
  "find P xs = None \<Longrightarrow> find P (xs @ ys) = find P ys"
  by (induction xs) (auto split: if_splits)

lemma find_first_holder:
  assumes uniq: "distinct (map key (concat (map elems (pre @ c # post))))"
    and mem: "x \<in> set (elems c)"
  shows "find (\<lambda>cat. list_ex (\<lambda>i. key i = key x) (elems cat)) (pre @ c # post) = Some c"
proof -
  from uniq have split:
    "distinct (map key (concat (map elems pre)) @ map key (elems c) @
               map key (concat (map elems post)))"
    by simp
  have no_earlier: "\<not> list_ex (\<lambda>i. key i = key x) (elems cat)" if cat: "cat \<in> set pre" for cat
  proof
    assume "list_ex (\<lambda>i. key i = key x) (elems cat)"
    then obtain i where i: "i \<in> set (elems cat)" and same: "key i = key x"
      unfolding list_ex_iff by blast
    from cat i have "key i \<in> set (map key (concat (map elems pre)))"
      by auto
    then have "key x \<in> set (map key (concat (map elems pre)))"
      unfolding same .
    moreover from mem have "key x \<in> set (map key (elems c))"
      by simp
    ultimately show False
      using split by (rule distinct_append_disjoint [rotated])
  qed
  then have "find (\<lambda>cat. list_ex (\<lambda>i. key i = key x) (elems cat)) pre = None"
    unfolding find_None_iff by blast
  moreover from mem have "list_ex (\<lambda>i. key i = key x) (elems c)"
    unfolding list_ex_iff by blast
  ultimately show ?thesis
    by (simp add: find_skip_prefix)
qed

lemma categoryIdOf_owner:
  assumes uniq: "distinct (map item_id (allItems (pre @ c # post)))"
    and mem: "item \<in> set (items c)"
  shows "categoryIdOf (pre @ c # post) item = Some (cat_id c)"
  unfolding categoryIdOf_def
  using find_first_holder [OF uniq [unfolded allItems_def] mem] by simp

lemma quick_filter_suffix:
  assumes "distinct (map item_id (allItems (pre @ rest)))"
  shows "filter (\<lambda>item.
            let categoryId = categoryIdOf (pre @ rest) item
            in categoryId = Some ''starters'' \<or> categoryId = Some ''soups'' \<or>
               js_includes (toLowerCase (name item)) ''fried rice'')
          (allItems rest) =
         concat (map (\<lambda>cat. filter (\<lambda>item.
               cat_id cat = ''starters'' \<or> cat_id cat = ''soups'' \<or>
               sublist ''fried rice'' (toLowerCase (name item))) (items cat)) rest)"
  using assms
proof (induction rest arbitrary: pre)
  case Nil
  then show ?case by (simp add: allItems_def)
next
  case (Cons c rest)
  from Cons.prems have "distinct (map item_id (allItems ((pre @ [c]) @ rest)))"
    by simp
  from Cons.IH [OF this] have tail:
    "filter (\<lambda>item.
            let categoryId = categoryIdOf (pre @ c # rest) item
            in categoryId = Some ''starters'' \<or> categoryId = Some ''soups'' \<or>
               js_includes (toLowerCase (name item)) ''fried rice'')
          (allItems rest) =
         concat (map (\<lambda>cat. filter (\<lambda>item.
               cat_id cat = ''starters'' \<or> cat_id cat = ''soups'' \<or>
               sublist ''fried rice'' (toLowerCase (name item))) (items cat)) rest)"
    by simp
  have head:
    "filter (\<lambda>item.
            let categoryId = categoryIdOf (pre @ c # rest) item
            in categoryId = Some ''starters'' \<or> categoryId = Some ''soups'' \<or>
               js_includes (toLowerCase (name item)) ''fried rice'')
          (items c) =
     filter (\<lambda>item.
               cat_id c = ''starters'' \<or> cat_id c = ''soups'' \<or>
               sublist ''fried rice'' (toLowerCase (name item))) (items c)"
    by (rule filter_cong)
       (simp_all add: categoryIdOf_owner [OF Cons.prems] js_includes_sublist)
  have "allItems (c # rest) = items c @ allItems rest"
    by (simp add: allItems_def)
  then show ?case
    by (simp add: head tail)
qed

text \<open>
  C8. When no two items of the flattened catalog share an identifier, the first category
  that holds an item with a given item's identifier is the category the item stands in.
  The quick-lunch result then lists, category by category and in catalog order, the items
  of the categories "starters" and "soups" together with every item whose lower-cased
  name contains "fried rice", under the title "Quick Lunch Options".
\<close>

theorem C8_quick_lunch_items:
  "distinct (map item_id (allItems cats)) \<Longrightarrow>
   handleQuickOptions cats =
     \<lparr>title = ''Quick Lunch Options'',
      result_items =
        concat (map (\<lambda>cat. filter (\<lambda>item.
               cat_id cat = ''starters'' \<or> cat_id cat = ''soups'' \<or>
               sublist ''fried rice'' (toLowerCase (name item))) (items cat)) cats)\<rparr>"
  using quick_filter_suffix [of "[]" cats] by (simp add: handleQuickOptions_def)

theorem C8_quick_lunch_items_witness:
  "distinct (map item_id (allItems example_catalog)) \<and>
   title (handleQuickOptions example_catalog) = ''Quick Lunch Options'' \<and>
   map item_id (result_items (handleQuickOptions example_catalog)) =
     [''spring-rolls'', ''dumplings'', ''tom-yum'', ''fried-rice'']"
proof -
  have uniq: "distinct (map item_id (allItems example_catalog))"
    by code_simp
  have "map item_id (concat (map (\<lambda>cat. filter (\<lambda>item.
               cat_id cat = ''starters'' \<or> cat_id cat = ''soups'' \<or>
               sublist ''fried rice'' (toLowerCase (name item))) (items cat)) example_catalog)) =
     [''spring-rolls'', ''dumplings'', ''tom-yum'', ''fried-rice'']"
    by code_simp
  with uniq C8_quick_lunch_items [OF uniq] show ?thesis
    by simp
qed

section \<open>Generic text search\<close>

text \<open>
  C5, as the code has it. A query that takes the generic branch yields the items of the
  flattened catalog, in catalog order, whose lower-cased name or lower-cased description
  contains the lower-cased query as a substring; lower-casing covers the accented
  capitals, so a query with U+00C9 finds a name spelled with U+00E9. The title quotes the
  lower-cased query: \<open>textSearch\<close> receives \<open>searchLower\<close> and builds the title from
  its argument.
\<close>

theorem C5_generic_text_search:
  "js_trim q \<noteq> [] \<Longrightarrow> classify (toLowerCase q) = GENERIC_TEXT_SEARCH \<Longrightarrow>
   handleSearch cats q =
     [TrackSearch q,
      OnSearchResults
        \<lparr>title = ''Search Results for '' @ [CHR 0x22] @ toLowerCase q @ [CHR 0x22],
         result_items =
           filter (\<lambda>item. sublist (toLowerCase q) (toLowerCase (name item)) \<or>
                          sublist (toLowerCase q) (toLowerCase (description item)))
             (allItems cats)\<rparr>,
      SetQuery [], SetIsExpanded False]"
  by (simp add: handleSearch_classify textSearch_def js_includes_sublist)

theorem C5_generic_text_search_witness:
  "js_trim ''pad'' \<noteq> [] \<and>
   classify (toLowerCase ''pad'') = GENERIC_TEXT_SEARCH \<and>
   handleSearch example_catalog ''pad'' =
     [TrackSearch ''pad'',
      OnSearchResults
        \<lparr>title = ''Search Results for '' @ [CHR 0x22] @ ''pad'' @ [CHR 0x22],
         result_items =
           [example_item ''pad-thai'' ''Pad Thai'' ''Rice noodles with peanuts'' (Some 25)]\<rparr>,
      SetQuery [], SetIsExpanded False] \<and>
   handleSearch
     [\<lparr>cat_id = ''drinks'',
       items = [example_item ''cafe'' [CHR ''C'', CHR ''a'', CHR ''f'', CHR 0xE9] ''Coffee'' None]\<rparr>]
     [CHR ''C'', CHR ''A'', CHR ''F'', CHR 0xC9] =
     [TrackSearch [CHR ''C'', CHR ''A'', CHR ''F'', CHR 0xC9],
      OnSearchResults
        \<lparr>title = ''Search Results for '' @ [CHR 0x22] @
                   [CHR ''c'', CHR ''a'', CHR ''f'', CHR 0xE9] @ [CHR 0x22],
         result_items =
           [example_item ''cafe'' [CHR ''C'', CHR ''a'', CHR ''f'', CHR 0xE9] ''Coffee'' None]\<rparr>,
      SetQuery [], SetIsExpanded False]"
proof -
  have guard: "js_trim ''pad'' \<noteq> []"
    by code_simp
  have generic: "classify (toLowerCase ''pad'') = GENERIC_TEXT_SEARCH"
    by code_simp
  have lower: "toLowerCase ''pad'' = ''pad''"
    by code_simp
  have found:
    "filter (\<lambda>item. sublist ''pad'' (toLowerCase (name item)) \<or>
                    sublist ''pad'' (toLowerCase (description item)))
       (allItems example_catalog) =
     [example_item ''pad-thai'' ''Pad Thai'' ''Rice noodles with peanuts'' (Some 25)]"
    by code_simp
  let ?drinks = "[\<lparr>cat_id = ''drinks'',
       items = [example_item ''cafe'' [CHR ''C'', CHR ''a'', CHR ''f'', CHR 0xE9] ''Coffee'' None]\<rparr>]"
  have guard': "js_trim [CHR ''C'', CHR ''A'', CHR ''F'', CHR 0xC9] \<noteq> []"
    by code_simp
  have generic':
    "classify (toLowerCase [CHR ''C'', CHR ''A'', CHR ''F'', CHR 0xC9]) = GENERIC_TEXT_SEARCH"
    by code_simp
  have lower': "toLowerCase [CHR ''C'', CHR ''A'', CHR ''F'', CHR 0xC9] =
                  [CHR ''c'', CHR ''a'', CHR ''f'', CHR 0xE9]"
    by code_simp
  have found':
    "filter (\<lambda>item. sublist [CHR ''c'', CHR ''a'', CHR ''f'', CHR 0xE9] (toLowerCase (name item)) \<or>
                    sublist [CHR ''c'', CHR ''a'', CHR ''f'', CHR 0xE9]
                      (toLowerCase (description item)))
       (allItems ?drinks) =
     [example_item ''cafe'' [CHR ''C'', CHR ''a'', CHR ''f'', CHR 0xE9] ''Coffee'' None]"
    by code_simp
  from C5_generic_text_search [OF guard generic, of example_catalog]
  have first: "handleSearch example_catalog ''pad'' =
     [TrackSearch ''pad'',
      OnSearchResults
        \<lparr>title = ''Search Results for '' @ [CHR 0x22] @ ''pad'' @ [CHR 0x22],
         result_items =
           [example_item ''pad-thai'' ''Pad Thai'' ''Rice noodles with peanuts'' (Some 25)]\<rparr>,
      SetQuery [], SetIsExpanded False]"
    by (simp only: lower found)
  from C5_generic_text_search [OF guard' generic', of ?drinks]
  have second: "handleSearch ?drinks [CHR ''C'', CHR ''A'', CHR ''F'', CHR 0xC9] =
     [TrackSearch [CHR ''C'', CHR ''A'', CHR ''F'', CHR 0xC9],
      OnSearchResults
        \<lparr>title = ''Search Results for '' @ [CHR 0x22] @
                   [CHR ''c'', CHR ''a'', CHR ''f'', CHR 0xE9] @ [CHR 0x22],
         result_items =
           [example_item ''cafe'' [CHR ''C'', CHR ''a'', CHR ''f'', CHR 0xE9] ''Coffee'' None]\<rparr>,
      SetQuery [], SetIsExpanded False]"
    by (simp only: lower' found')
  from guard generic first second show ?thesis
    by (simp only: simp_thms)
qed

text \<open>
  The claim C5 as the specification states it fails on the title: for the query "Pad"
  the result holds the item "Pad Thai", and its title quotes "pad", not the query as it
  was typed.
\<close>

theorem C5_title_counterexample:
  "js_trim ''Pad'' \<noteq> [] \<and>
   classify (toLowerCase ''Pad'') = GENERIC_TEXT_SEARCH \<and>
   handleSearch example_catalog ''Pad'' =
     [TrackSearch ''Pad'', OnSearchResults (textSearch example_catalog ''pad''),
      SetQuery [], SetIsExpanded False] \<and>
   map name (result_items (textSearch example_catalog ''pad'')) = [''Pad Thai''] \<and>
   title (textSearch example_catalog ''pad'') =
     ''Search Results for '' @ [CHR 0x22] @ ''pad'' @ [CHR 0x22] \<and>
   title (textSearch example_catalog ''pad'') \<noteq>
     ''Search Results for '' @ [CHR 0x22] @ ''Pad'' @ [CHR 0x22]"
proof -
  have guard: "js_trim ''Pad'' \<noteq> []"
    by code_simp
  have lower: "toLowerCase ''Pad'' = ''pad''"
    by code_simp
  have generic: "classify ''pad'' = GENERIC_TEXT_SEARCH"
    by code_simp
  have emitted: "handleSearch example_catalog ''Pad'' =
     [TrackSearch ''Pad'', OnSearchResults (textSearch example_catalog ''pad''),
      SetQuery [], SetIsExpanded False]"
    by (simp only: handleSearch_classify [OF guard] lower generic branch_result.simps
          option.case)
  have found: "map name (result_items (textSearch example_catalog ''pad'')) = [''Pad Thai'']"
    by code_simp
  have shown: "title (textSearch example_catalog ''pad'') =
     ''Search Results for '' @ [CHR 0x22] @ ''pad'' @ [CHR 0x22]"
    by (simp add: textSearch_def)
  have differs: "title (textSearch example_catalog ''pad'') \<noteq>
     ''Search Results for '' @ [CHR 0x22] @ ''Pad'' @ [CHR 0x22]"
    by (simp add: textSearch_def)
  from guard generic emitted found shown differs show ?thesis
    by (simp only: lower simp_thms)
qed

section \<open>The item card\<close>

text \<open>
  C6. When the item declares an option that is required, the add-to-cart handler makes
  no cart call: it assigns the item's detail path to the location and leaves the
  quantity as it is. Otherwise it makes one cart call, with the item's identifier, name
  and price and the quantity shown, navigates nowhere, and sets the quantity to 1.
\<close>

theorem C6_add_to_cart_or_redirect:
  "((\<exists>opts. options item = Some opts \<and> (\<exists>opt \<in> set opts. required opt)) \<longrightarrow>
      handleAddToCart item quantity =
        (quantity, [PreventDefault, StopPropagation, SetLocationHref (''/item/'' @ item_id item)]) \<and>
      cart_calls (snd (handleAddToCart item quantity)) = [] \<and>
      navigations (snd (handleAddToCart item quantity)) = [''/item/'' @ item_id item]) \<and>
   (\<not> (\<exists>opts. options item = Some opts \<and> (\<exists>opt \<in> set opts. required opt)) \<longrightarrow>
      handleAddToCart item quantity =
        (1, [PreventDefault, StopPropagation,
             AddToCart (item_id item) (name item) (price item) quantity]) \<and>
      cart_calls (snd (handleAddToCart item quantity)) =
        [(item_id item, name item, price item, quantity)] \<and>
      navigations (snd (handleAddToCart item quantity)) = [])"
  by (cases "options item") (auto simp: handleAddToCart_def list_ex_iff)

theorem C6_add_to_cart_or_redirect_witness:
  "handleAddToCart
     (example_item ''pad-thai'' ''Pad Thai'' ''Rice noodles''
        (Some 25)\<lparr>options := Some [\<lparr>required = False\<rparr>, \<lparr>required = True\<rparr>]\<rparr>) 3 =
     (3, [PreventDefault, StopPropagation, SetLocationHref ''/item/pad-thai'']) \<and>
   handleAddToCart (example_item ''tom-yum'' ''Tom Yum'' ''Hot and sour soup'' (Some 15)) 3 =
     (1, [PreventDefault, StopPropagation, AddToCart ''tom-yum'' ''Tom Yum'' 12 3]) \<and>
   cart_calls (snd (handleAddToCart
      (example_item ''tom-yum'' ''Tom Yum'' ''Hot and sour soup'' (Some 15)) 3)) =
     [(''tom-yum'', ''Tom Yum'', 12, 3)]"
proof -
  let ?configurable = "example_item ''pad-thai'' ''Pad Thai'' ''Rice noodles''
        (Some 25)\<lparr>options := Some [\<lparr>required = False\<rparr>, \<lparr>required = True\<rparr>]\<rparr>"
  let ?plain = "example_item ''tom-yum'' ''Tom Yum'' ''Hot and sour soup'' (Some 15)"
  have a: "\<exists>opts. options ?configurable = Some opts \<and> (\<exists>opt \<in> set opts. required opt)"
    by (simp add: example_item_def)
  have b: "\<not> (\<exists>opts. options ?plain = Some opts \<and> (\<exists>opt \<in> set opts. required opt))"
    by (simp add: example_item_def)
  from a C6_add_to_cart_or_redirect [of ?configurable 3]
  have "handleAddToCart ?configurable 3 =
     (3, [PreventDefault, StopPropagation, SetLocationHref (''/item/'' @ item_id ?configurable)])"
    by blast
  moreover from b C6_add_to_cart_or_redirect [of ?plain 3]
  have "handleAddToCart ?plain 3 =
     (1, [PreventDefault, StopPropagation,
          AddToCart (item_id ?plain) (name ?plain) (price ?plain) 3]) \<and>
    cart_calls (snd (handleAddToCart ?plain 3)) = [(item_id ?plain, name ?plain, price ?plain, 3)]"
    by blast
  ultimately show ?thesis
    by (simp add: example_item_def)
qed

lemma card_step_rendered:
  assumes "shown_quantity st = state_quantity st" "1 \<le> state_quantity st"
  shows "shown_quantity (card_step (card_step st click) Render) =
           state_quantity (card_step (card_step st click) Render) \<and>
         1 \<le> state_quantity (card_step (card_step st click) Render)"
  using assms by (cases click) (simp_all add: incrementQuantity_def decrementQuantity_def)

lemma rendered_clicks_from:
  "shown_quantity st = state_quantity st \<Longrightarrow> 1 \<le> state_quantity st \<Longrightarrow>
   1 \<le> shown_quantity (foldl card_step st (concat (map (\<lambda>click. [click, Render]) clicks)))"
proof (induction clicks arbitrary: st)
  case Nil
  then show ?case by simp
next
  case (Cons click clicks)
  from card_step_rendered [OF Cons.prems, of click] Cons.IH
  show ?case by simp
qed

text \<open>
  When the card renders after every click, the quantity it shows stays at 1 or above.
\<close>

lemma rendered_clicks_stay_positive:
  "1 \<le> shown_quantity (card_run (concat (map (\<lambda>click. [click, Render]) clicks)))"
  unfolding card_run_def
  by (rule rendered_clicks_from) (simp_all add: initialCard_def initialQuantity_def)


section \<open>The menu page\<close>

lemma lazyGroup_stops:
  "CHR 0x22 \<notin> set xs \<Longrightarrow> \<forall>c \<in> set xs. \<not> isLineTerminator c \<Longrightarrow>
   lazyGroup taken (xs @ CHR 0x22 # rest) = Some (taken @ xs)"
  by (induction xs arbitrary: taken) auto

lemma lazyGroup_Some:
  "lazyGroup taken cs = Some g \<Longrightarrow> \<exists>xs rest. cs = xs @ CHR 0x22 # rest \<and> g = taken @ xs"
proof (induction cs arbitrary: taken)
  case Nil
  then show ?case by simp
next
  case (Cons c cs)
  show ?case
  proof (cases "c = CHR 0x22")
    case True
    with Cons.prems have "c # cs = [] @ CHR 0x22 # cs \<and> g = taken @ []"
      by simp
    then show ?thesis by blast
  next
    case False
    with Cons.prems have "lazyGroup (taken @ [c]) cs = Some g"
      by (simp split: if_splits)
    from Cons.IH [OF this] obtain xs rest
      where "cs = xs @ CHR 0x22 # rest" "g = (taken @ [c]) @ xs"
      by blast
    then have "c # cs = (c # xs) @ CHR 0x22 # rest \<and> g = taken @ (c # xs)"
      by simp
    then show ?thesis by blast
  qed
qed

lemma matchQuoted_Some:
  assumes "matchQuoted t = Some g"
  shows "\<exists>rest. g \<noteq> [] \<and> t = quotedPrefix @ g @ CHR 0x22 # rest"
proof -
  from assms have pre: "prefix quotedPrefix t"
    by (simp add: matchQuoted_def split: if_splits)
  then obtain body where t: "t = quotedPrefix @ body"
    by (auto simp: prefix_def)
  with assms obtain c cs where body: "body = c # cs" and lazy: "lazyGroup [c] cs = Some g"
    by (auto simp: matchQuoted_def split: if_splits list.splits)
  from lazyGroup_Some [OF lazy] obtain xs rest where "cs = xs @ CHR 0x22 # rest" "g = [c] @ xs"
    by blast
  with t body have "g \<noteq> [] \<and> t = quotedPrefix @ g @ CHR 0x22 # rest"
    by simp
  then show ?thesis by blast
qed

lemma matchQuoted_shortest:
  assumes "g \<noteq> []" "CHR 0x22 \<notin> set (tl g)" "\<forall>c \<in> set g. \<not> isLineTerminator c"
  shows "matchQuoted (quotedPrefix @ g @ CHR 0x22 # rest) = Some g"
proof -
  from assms obtain c xs where g: "g = c # xs"
    by (cases g) auto
  with assms have "lazyGroup [c] (xs @ CHR 0x22 # rest) = Some ([c] @ xs)"
    by (intro lazyGroup_stops) auto
  with g assms show ?thesis
    by (simp add: matchQuoted_def)
qed

lemma matchRest_all:
  "t \<noteq> [] \<Longrightarrow> \<forall>c \<in> set t. \<not> isLineTerminator c \<Longrightarrow> matchRest t = Some t"
  by (cases t) (auto simp: matchRest_def)

lemma extractedQuery_quoted:
  assumes "g \<noteq> []" "CHR 0x22 \<notin> set (tl g)" "\<forall>c \<in> set g. \<not> isLineTerminator c"
  shows "extractedQuery (quotedPrefix @ g @ CHR 0x22 # rest) = Some g"
proof -
  obtain c cs where "quotedPrefix @ g @ CHR 0x22 # rest = c # cs"
    by (cases "quotedPrefix @ g @ CHR 0x22 # rest") (auto simp: quotedPrefix_def)
  moreover have "matchQuoted (quotedPrefix @ g @ CHR 0x22 # rest) = Some g"
    using assms by (rule matchQuoted_shortest)
  ultimately have "titleMatch (quotedPrefix @ g @ CHR 0x22 # rest) = Some (Some g, None)"
    by simp
  with assms(1) show ?thesis
    by (simp add: extractedQuery_def js_or_def)
qed

lemma extractedQuery_whole:
  assumes "t \<noteq> []" "\<forall>c \<in> set t. \<not> isLineTerminator c" "matchQuoted t = None"
  shows "extractedQuery t = Some t"
proof -
  from assms(1) obtain c cs where t: "t = c # cs"
    by (cases t) auto
  from assms(1,2) have "matchRest t = Some t"
    by (rule matchRest_all)
  with assms(3) have "titleMatch t = Some (None, Some t)"
    unfolding t by simp
  with assms(1) show ?thesis
    by (simp add: extractedQuery_def js_or_def)
qed

lemma currentQuery_handleSearchResults:
  "currentQuery (fst (handleSearchResults r st)) =
     (case extractedQuery (title r) of None \<Rightarrow> currentQuery st | Some q \<Rightarrow> q)"
  by (simp add: handleSearchResults_def extractedQuery_def Let_def split: option.splits prod.splits)

lemma render_handleSearchResults:
  "\<not> (categoriesLoading \<and> \<not> isLoaded st) \<Longrightarrow> \<not> categoriesError \<Longrightarrow>
   render useMenuSearch categoriesLoading categoriesError (fst (handleSearchResults r st)) =
     SearchView (if title r = [] then ''Search Results'' else title r)
       (useMenuSearch (currentQuery (fst (handleSearchResults r st))))"
  by (auto simp: render_def handleSearchResults_def js_or_def Let_def split: option.splits prod.splits)


lemma toLowerCaseChar_terminator: "isLineTerminator (toLowerCaseChar c) \<longleftrightarrow> isLineTerminator c"
proof (cases "toLowerCaseChar c = c")
  case True
  then show ?thesis by simp
next
  case False
  then have from_65: "65 \<le> (of_char c :: nat)" and to_222: "(of_char c :: nat) \<le> 222"
    and moved: "toLowerCaseChar c = char_of ((of_char c :: nat) + 32)"
    by (auto simp: toLowerCaseChar_def Let_def split: if_splits)
  from to_222 have "((of_char c :: nat) + 32) mod 256 = of_char c + 32"
    by simp
  with moved have "(of_char (toLowerCaseChar c) :: nat) = of_char c + 32"
    by simp
  with from_65 have "(of_char (toLowerCaseChar c) :: nat) \<noteq> 10" "(of_char c :: nat) \<noteq> 10"
    "(of_char (toLowerCaseChar c) :: nat) \<noteq> 13" "(of_char c :: nat) \<noteq> 13"
    by simp_all
  then show ?thesis by (auto simp: isLineTerminator_def)
qed

lemma delivered_result:
  assumes "OnSearchResults r \<in> set (handleSearch cats q)"
  shows "q \<noteq> [] \<and> branch_result cats (toLowerCase q) (classify (toLowerCase q)) = Some r"
proof -
  from assms have guard: "js_trim q \<noteq> []"
    by (auto simp: handleSearch_def split: if_splits)
  then have "q \<noteq> []"
    by (auto simp: js_trim_def)
  moreover from assms have
    "branch_result cats (toLowerCase q) (classify (toLowerCase q)) = Some r"
    unfolding handleSearch_classify [OF guard] by (auto split: option.splits)
  ultimately show ?thesis by simp
qed

lemma extractedQuery_fixed_titles:
  "extractedQuery ''Most Popular Dishes'' = Some ''Most Popular Dishes''"
  "extractedQuery ''Spicy Dishes'' = Some ''Spicy Dishes''"
  "extractedQuery ''Vegetarian Options'' = Some ''Vegetarian Options''"
  "extractedQuery ''Gluten-Free Options'' = Some ''Gluten-Free Options''"
  "extractedQuery ''Highest Protein Dishes'' = Some ''Highest Protein Dishes''"
  "extractedQuery ''Quick Lunch Options'' = Some ''Quick Lunch Options''"
  by code_simp+

lemma split_at_first_quote:
  "\<exists>rest. cs @ [CHR 0x22] = takeWhile (\<lambda>c. c \<noteq> CHR 0x22) cs @ CHR 0x22 # rest"
  by (induction cs) auto

lemma extractedQuery_textSearch:
  assumes "s \<noteq> []" "\<forall>c \<in> set s. \<not> isLineTerminator c"
  shows "extractedQuery (title (textSearch cats s)) =
           Some (hd s # takeWhile (\<lambda>c. c \<noteq> CHR 0x22) (tl s))"
proof -
  from assms(1) obtain c cs where s: "s = c # cs"
    by (cases s) auto
  let ?g = "c # takeWhile (\<lambda>c. c \<noteq> CHR 0x22) cs"
  from split_at_first_quote [of cs] obtain rest
    where cut: "cs @ [CHR 0x22] = takeWhile (\<lambda>c. c \<noteq> CHR 0x22) cs @ CHR 0x22 # rest"
    by blast
  have "title (textSearch cats s) = quotedPrefix @ c # (cs @ [CHR 0x22])"
    by (simp add: textSearch_def quotedPrefix_def s)
  then have split: "title (textSearch cats s) = quotedPrefix @ ?g @ CHR 0x22 # rest"
    unfolding cut by simp
  have "CHR 0x22 \<notin> set (tl ?g)"
    by (auto dest: set_takeWhileD)
  moreover have "\<forall>c \<in> set ?g. \<not> isLineTerminator c"
    using assms(2) by (auto simp: s dest: set_takeWhileD)
  ultimately have "extractedQuery (quotedPrefix @ ?g @ CHR 0x22 # rest) = Some ?g"
    by (intro extractedQuery_quoted) simp_all
  then have "extractedQuery (title (textSearch cats s)) = Some ?g"
    by (simp only: split)
  then show ?thesis
    by (simp add: s)
qed

lemma handler_titles:
  "title (handlePopularQuery cats) = ''Most Popular Dishes''"
  "title (handleSpicyQuery cats) = ''Spicy Dishes''"
  "title (handleVegetarianQuery cats) = ''Vegetarian Options''"
  "title (handleGlutenFreeQuery cats) = ''Gluten-Free Options''"
  "title (handleProteinQuery cats) = ''Highest Protein Dishes''"
  "title (handleQuickOptions cats) = ''Quick Lunch Options''"
  by (simp_all add: handlePopularQuery_def handleSpicyQuery_def handleVegetarianQuery_def
        handleGlutenFreeQuery_def handleProteinQuery_def handleQuickOptions_def Let_def)

lemma delivered_query:
  assumes sent: "OnSearchResults r \<in> set (handleSearch cats q)"
    and plain: "\<forall>c \<in> set q. \<not> isLineTerminator c"
  shows "extractedQuery (title r) =
           Some (if classify (toLowerCase q) = GENERIC_TEXT_SEARCH
                 then hd (toLowerCase q) # takeWhile (\<lambda>c. c \<noteq> CHR 0x22) (tl (toLowerCase q))
                 else title r)"
proof -
  from delivered_result [OF sent] have nonempty: "toLowerCase q \<noteq> []"
    and r: "branch_result cats (toLowerCase q) (classify (toLowerCase q)) = Some r"
    by (simp_all add: toLowerCase_def)
  from plain have lower_plain: "\<forall>c \<in> set (toLowerCase q). \<not> isLineTerminator c"
    by (simp add: toLowerCase_def toLowerCaseChar_terminator)
  show ?thesis
  proof (cases "classify (toLowerCase q)")
    case GENERIC_TEXT_SEARCH
    with r have "r = textSearch cats (toLowerCase q)"
      by simp
    with GENERIC_TEXT_SEARCH extractedQuery_textSearch [OF nonempty lower_plain, of cats]
    show ?thesis by simp
  next
    case POPULAR
    with r have "title r = ''Most Popular Dishes''"
      by (auto simp: handler_titles)
    with POPULAR show ?thesis
      by (simp add: extractedQuery_fixed_titles)
  next
    case SPICY
    with r have "title r = ''Spicy Dishes''"
      by (auto simp: handler_titles)
    with SPICY show ?thesis
      by (simp add: extractedQuery_fixed_titles)
  next
    case VEGETARIAN
    with r have "title r = ''Vegetarian Options''"
      by (auto simp: handler_titles)
    with VEGETARIAN show ?thesis
      by (simp add: extractedQuery_fixed_titles)
  next
    case GLUTEN_FREE
    with r have "title r = ''Gluten-Free Options''"
      by (auto simp: handler_titles)
    with GLUTEN_FREE show ?thesis
      by (simp add: extractedQuery_fixed_titles)
  next
    case HIGHEST_PROTEIN
    with r have "title r = ''Highest Protein Dishes''"
      by (auto simp: handler_titles)
    with HIGHEST_PROTEIN show ?thesis
      by (simp add: extractedQuery_fixed_titles)
  next
    case QUICK_LUNCH
    with r have "title r = ''Quick Lunch Options''"
      by (auto simp: handler_titles)
    with QUICK_LUNCH show ?thesis
      by (simp add: extractedQuery_fixed_titles)
  next
    case LANGUAGE_SWITCH
    with r show ?thesis
      by simp
  qed
qed


text \<open>
  C10. Once the page is past its loading and error screens, what it shows after a result
  arrives is the result's title over the items that the catalog search hook returns for
  the current query, and the current query is the one read off the title: the quoted
  text (from the opening quote to the first quote after at least one character) when the
  title starts with \<open>Search Results for "\<close> and such a closing quote exists, the whole
  title otherwise (titles without line terminators; a title with no match leaves the
  query as it was). For a result sent by the search bar for a query without line
  terminators, that is the lower-cased query up to its first inner quote on the generic
  branch, and the title itself on every other branch. The result's own item list reaches
  the analytics event through its length only, and the view does not depend on it.
\<close>

theorem C10_page_shows_catalog_search:
  "(\<not> (categoriesLoading \<and> \<not> isLoaded st) \<and> \<not> categoriesError \<longrightarrow>
      render useMenuSearch categoriesLoading categoriesError (fst (handleSearchResults r st)) =
        SearchView (if title r = [] then ''Search Results'' else title r)
          (useMenuSearch
             (case extractedQuery (title r) of None \<Rightarrow> currentQuery st | Some query \<Rightarrow> query))) \<and>
   (g \<noteq> [] \<and> CHR 0x22 \<notin> set (tl g) \<and> (\<forall>c \<in> set g. \<not> isLineTerminator c) \<longrightarrow>
      extractedQuery (quotedPrefix @ g @ CHR 0x22 # rest) = Some g) \<and>
   (t \<noteq> [] \<and> (\<forall>c \<in> set t. \<not> isLineTerminator c) \<and>
    \<not> (\<exists>g rest. g \<noteq> [] \<and> t = quotedPrefix @ g @ CHR 0x22 # rest) \<longrightarrow>
      extractedQuery t = Some t) \<and>
   (OnSearchResults r \<in> set (handleSearch cats q) \<and> (\<forall>c \<in> set q. \<not> isLineTerminator c) \<longrightarrow>
      extractedQuery (title r) =
        Some (if classify (toLowerCase q) = GENERIC_TEXT_SEARCH
              then hd (toLowerCase q) # takeWhile (\<lambda>c. c \<noteq> CHR 0x22) (tl (toLowerCase q))
              else title r)) \<and>
   snd (handleSearchResults r st) =
     [TrackSearchResults (title r) (length (result_items r))] \<and>
   (title r' = title r \<longrightarrow>
      render useMenuSearch categoriesLoading categoriesError (fst (handleSearchResults r' st)) =
      render useMenuSearch categoriesLoading categoriesError (fst (handleSearchResults r st)))"
proof (intro conjI impI)
  assume "\<not> (categoriesLoading \<and> \<not> isLoaded st) \<and> \<not> categoriesError"
  then show "render useMenuSearch categoriesLoading categoriesError
               (fst (handleSearchResults r st)) =
             SearchView (if title r = [] then ''Search Results'' else title r)
               (useMenuSearch
                  (case extractedQuery (title r) of
                     None \<Rightarrow> currentQuery st | Some query \<Rightarrow> query))"
    by (simp add: render_handleSearchResults currentQuery_handleSearchResults)
next
  assume "g \<noteq> [] \<and> CHR 0x22 \<notin> set (tl g) \<and> (\<forall>c \<in> set g. \<not> isLineTerminator c)"
  then show "extractedQuery (quotedPrefix @ g @ CHR 0x22 # rest) = Some g"
    by (simp add: extractedQuery_quoted)
next
  assume a: "t \<noteq> [] \<and> (\<forall>c \<in> set t. \<not> isLineTerminator c) \<and>
             \<not> (\<exists>g rest. g \<noteq> [] \<and> t = quotedPrefix @ g @ CHR 0x22 # rest)"
  then have "matchQuoted t = None"
    using matchQuoted_Some [of t] by (cases "matchQuoted t") auto
  with a show "extractedQuery t = Some t"
    by (simp add: extractedQuery_whole)
next
  assume "OnSearchResults r \<in> set (handleSearch cats q) \<and> (\<forall>c \<in> set q. \<not> isLineTerminator c)"
  then show "extractedQuery (title r) =
        Some (if classify (toLowerCase q) = GENERIC_TEXT_SEARCH
              then hd (toLowerCase q) # takeWhile (\<lambda>c. c \<noteq> CHR 0x22) (tl (toLowerCase q))
              else title r)"
    using delivered_query [of r cats q] by blast
next
  show "snd (handleSearchResults r st) =
          [TrackSearchResults (title r) (length (result_items r))]"
    by (simp add: handleSearchResults_def Let_def)
next
  assume "title r' = title r"
  then show "render useMenuSearch categoriesLoading categoriesError
               (fst (handleSearchResults r' st)) =
             render useMenuSearch categoriesLoading categoriesError
               (fst (handleSearchResults r st))"
    by (simp add: render_def handleSearchResults_def Let_def split: option.splits prod.splits)
qed

theorem C10_page_shows_catalog_search_witness:
  "render (\<lambda>query. [query]) False False
     (fst (handleSearchResults (textSearch example_catalog ''pad'')
        \<lparr>activeCategory = ''noodles'', isLoaded = True, searchResults = None,
         currentQuery = []\<rparr>)) =
     SearchView (''Search Results for '' @ [CHR 0x22] @ ''pad'' @ [CHR 0x22]) [''pad''] \<and>
   snd (handleSearchResults (textSearch example_catalog ''pad'')
        \<lparr>activeCategory = ''noodles'', isLoaded = True, searchResults = None,
         currentQuery = []\<rparr>) =
     [TrackSearchResults (''Search Results for '' @ [CHR 0x22] @ ''pad'' @ [CHR 0x22]) 1] \<and>
   extractedQuery ''Quick Lunch Options'' = Some ''Quick Lunch Options''"
proof -
  let ?st = "\<lparr>activeCategory = ''noodles'', isLoaded = True, searchResults = None,
              currentQuery = []\<rparr>"
  let ?r = "textSearch example_catalog ''pad''"
  note inst = C10_page_shows_catalog_search
    [where categoriesLoading = False and categoriesError = False and st = ?st and r = ?r
       and useMenuSearch = "\<lambda>query. [query]" and g = "''pad''" and rest = "[]"
       and t = "''Quick Lunch Options''"]
  have shown: "title ?r = quotedPrefix @ ''pad'' @ [CHR 0x22]"
    by (simp add: textSearch_def quotedPrefix_def)
  have count: "length (result_items ?r) = 1"
    by code_simp
  have quoted: "''pad'' \<noteq> [] \<and> CHR 0x22 \<notin> set (tl ''pad'') \<and>
                (\<forall>c \<in> set ''pad''. \<not> isLineTerminator c)"
    by (simp add: isLineTerminator_def)
  have whole: "''Quick Lunch Options'' \<noteq> [] \<and>
               (\<forall>c \<in> set ''Quick Lunch Options''. \<not> isLineTerminator c) \<and>
               \<not> (\<exists>g rest. g \<noteq> [] \<and>
                    ''Quick Lunch Options'' = quotedPrefix @ g @ CHR 0x22 # rest)"
    by (simp add: isLineTerminator_def quotedPrefix_def)
  from inst quoted have query: "extractedQuery (quotedPrefix @ ''pad'' @ [CHR 0x22]) = Some ''pad''"
    by blast
  from inst whole have other: "extractedQuery ''Quick Lunch Options'' = Some ''Quick Lunch Options''"
    by blast
  from inst have "render (\<lambda>query. [query]) False False (fst (handleSearchResults ?r ?st)) =
        SearchView (if title ?r = [] then ''Search Results'' else title ?r)
          [case extractedQuery (title ?r) of None \<Rightarrow> currentQuery ?st | Some query \<Rightarrow> query]"
    by simp
  moreover have "extractedQuery (title ?r) = Some ''pad''"
    by (simp only: shown query)
  moreover have named: "title ?r = ''Search Results for '' @ [CHR 0x22] @ ''pad'' @ [CHR 0x22]"
    by (simp add: textSearch_def)
  ultimately have view: "render (\<lambda>query. [query]) False False (fst (handleSearchResults ?r ?st)) =
     SearchView (''Search Results for '' @ [CHR 0x22] @ ''pad'' @ [CHR 0x22]) [''pad'']"
    by simp
  from inst have "snd (handleSearchResults ?r ?st) =
     [TrackSearchResults (title ?r) (length (result_items ?r))]"
    by blast
  with count named have event: "snd (handleSearchResults ?r ?st) =
     [TrackSearchResults (''Search Results for '' @ [CHR 0x22] @ ''pad'' @ [CHR 0x22]) 1]"
    by simp
  from view event other show ?thesis
    by blast
qed

end
